theory Spec2Isabelle
  imports Complex_Main
begin

section \<open>Tensor values\<close>

text \<open>
  The values of \<^verbatim>\<open>reinforce.py\<close> are 32-bit floats held in torch tensors. They are
  modelled as exact reals, together with one value \<open>NaN\<close> for a result that is not a
  finite number. Rounding and overflow are not modelled; what is modelled is where the
  arithmetic of the source leaves the finite numbers: a division whose divisor is zero
  (torch does not raise there, it yields nan or an infinity) and the square root of a
  negative number. Every operation on \<open>NaN\<close> yields \<open>NaN\<close>, as in IEEE arithmetic.
\<close>

datatype fl = Fin real | NaN

fun fl_add :: "fl \<Rightarrow> fl \<Rightarrow> fl" where
  "fl_add (Fin a) (Fin b) = Fin (a + b)"
| "fl_add _ _ = NaN"

fun fl_sub :: "fl \<Rightarrow> fl \<Rightarrow> fl" where
  "fl_sub (Fin a) (Fin b) = Fin (a - b)"
| "fl_sub _ _ = NaN"

fun fl_mul :: "fl \<Rightarrow> fl \<Rightarrow> fl" where
  "fl_mul (Fin a) (Fin b) = Fin (a * b)"
| "fl_mul _ _ = NaN"

fun fl_div :: "fl \<Rightarrow> fl \<Rightarrow> fl" where
  "fl_div (Fin a) (Fin b) = (if b = 0 then NaN else Fin (a / b))"
| "fl_div _ _ = NaN"

fun fl_sqrt :: "fl \<Rightarrow> fl" where
  "fl_sqrt (Fin a) = (if a < 0 then NaN else Fin (sqrt a))"
| "fl_sqrt NaN = NaN"

fun is_finite :: "fl \<Rightarrow> bool" where
  "is_finite (Fin a) = True"
| "is_finite NaN = False"

text \<open>
  A tensor of the source has at most one dimension here: \<open>Scalar\<close> is a tensor of shape
  \<open>()\<close>, \<open>Vec\<close> one of shape \<open>(n,)\<close>.
\<close>

datatype tensor = Scalar fl | Vec "fl list"

text \<open>The exceptions that the modelled code can raise.\<close>

datatype error =
  RuntimeError | ZeroDivisionError | IndexError | AttributeError | ValueError | RecursionError

text \<open>\<^verbatim>\<open>float(np.finfo(np.float32).eps)\<close>: the machine epsilon of 32-bit floats.\<close>

definition eps :: real where
  "eps = 1 / 2 ^ 23"

text \<open>\<^verbatim>\<open>t.sum()\<close> over the elements of a one-dimensional tensor; the empty sum is 0.\<close>

fun tensor_sum :: "fl list \<Rightarrow> fl" where
  "tensor_sum [] = Fin 0"
| "tensor_sum (x # xs) = fl_add x (tensor_sum xs)"

text \<open>
  \<^verbatim>\<open>t.mean()\<close>: the sum divided by the number of elements. For the empty tensor that
  is 0/0, which is nan.
\<close>

definition tensor_mean :: "fl list \<Rightarrow> fl" where
  "tensor_mean xs = fl_div (tensor_sum xs) (Fin (real (length xs)))"

text \<open>
  \<^verbatim>\<open>t.std()\<close>: torch's default is the unbiased estimator (Bessel's correction): the
  squared deviations from the mean are summed and divided by \<open>max 0 (n - 1)\<close>, then the
  square root is taken. For one element that is the square root of 0/0, which is nan.
\<close>

definition tensor_std :: "fl list \<Rightarrow> fl" where
  "tensor_std xs =
     (let m = tensor_mean xs;
          ss = tensor_sum (map (\<lambda>x. fl_mul (fl_sub x m) (fl_sub x m)) xs)
      in fl_sqrt (fl_div ss (Fin (real (length xs - 1)))))"

text \<open>
  Line 21 of \<^verbatim>\<open>get_policy_loss\<close>:
  \<^verbatim>\<open>r = (r - r.mean()) / (r.std() + float(np.finfo(np.float32).eps))\<close>
  where \<open>r\<close> is \<^verbatim>\<open>torch.FloatTensor(rewards)\<close>, of shape \<open>(n,)\<close>; the two scalars are
  broadcast over its elements.
\<close>

definition normalized_rewards :: "real list \<Rightarrow> fl list" where
  "normalized_rewards rewards =
     (let r = map Fin rewards;
          mean = tensor_mean r;
          denom = fl_add (tensor_std r) (Fin eps)
      in map (\<lambda>x. fl_div (fl_sub x mean) denom) r)"

text \<open>
  \<^verbatim>\<open>torch.stack(log_probs).squeeze()\<close>, each log-probability being a tensor of one
  element: \<^verbatim>\<open>torch.stack\<close> raises RuntimeError on an empty list; \<^verbatim>\<open>squeeze\<close> removes
  every dimension of size 1, so one log-probability gives a scalar and \<open>n > 1\<close> of them
  give shape \<open>(n,)\<close>.
\<close>

fun stack_squeeze :: "real list \<Rightarrow> error + tensor" where
  "stack_squeeze [] = Inl RuntimeError"
| "stack_squeeze [x] = Inr (Scalar (Fin x))"
| "stack_squeeze xs = Inr (Vec (map Fin xs))"

text \<open>
  \<^verbatim>\<open>torch.mul(a, b)\<close> with torch's broadcasting of shapes: a scalar or a one-element
  vector is broadcast over the other operand, two vectors of the same length are
  multiplied element by element, and any other pair of shapes raises RuntimeError.
\<close>

fun torch_mul :: "tensor \<Rightarrow> tensor \<Rightarrow> error + tensor" where
  "torch_mul (Scalar a) (Scalar b) = Inr (Scalar (fl_mul a b))"
| "torch_mul (Scalar a) (Vec ys) = Inr (Vec (map (\<lambda>y. fl_mul a y) ys))"
| "torch_mul (Vec xs) (Scalar b) = Inr (Vec (map (\<lambda>x. fl_mul x b) xs))"
| "torch_mul (Vec xs) (Vec ys) =
     (if length xs = length ys then Inr (Vec (map2 fl_mul xs ys))
      else if length xs = 1 then Inr (Vec (map (\<lambda>y. fl_mul (hd xs) y) ys))
      else if length ys = 1 then Inr (Vec (map (\<lambda>x. fl_mul x (hd ys)) xs))
      else Inl RuntimeError)"

text \<open>\<^verbatim>\<open>t.mul(-1)\<close> and \<^verbatim>\<open>t.sum()\<close> on a tensor of either shape.\<close>

fun mul_scalar :: "tensor \<Rightarrow> real \<Rightarrow> tensor" where
  "mul_scalar (Scalar a) c = Scalar (fl_mul a (Fin c))"
| "mul_scalar (Vec xs) c = Vec (map (\<lambda>x. fl_mul x (Fin c)) xs)"

fun sum_all :: "tensor \<Rightarrow> fl" where
  "sum_all (Scalar a) = a"
| "sum_all (Vec xs) = tensor_sum xs"

text \<open>
  \<^verbatim>\<open>get_policy_loss(rewards, log_probs)\<close>, lines 18 to 24. The log-probabilities are
  given by their values; the result is the value of the loss tensor, or the exception
  raised.
\<close>

definition get_policy_loss :: "real list \<Rightarrow> real list \<Rightarrow> error + fl" where
  "get_policy_loss rewards log_probs =
     (let r = Vec (normalized_rewards rewards)
      in case stack_squeeze log_probs of
           Inl e \<Rightarrow> Inl e
         | Inr lp \<Rightarrow>
             (case torch_mul lp r of
                Inl e \<Rightarrow> Inl e
              | Inr t \<Rightarrow> Inr (sum_all (mul_scalar t (- 1)))))"

section \<open>The collaborators and the variables of \<^verbatim>\<open>reinforce\<close>\<close>

text \<open>
  The policy network, the environment, the action selector and the optimizer are
  outside the source file. They are parameters of the model, collected in one record.
  The type variables stand for: \<open>'p\<close> the parameters of the policy network (with
  their gradients), \<open>'e\<close> an environment object, \<open>'g\<close> the state of torch's random
  generator, \<open>'o\<close> the state of the optimizer, \<open>'s\<close> an observation, \<open>'a\<close> an action,
  \<open>'h\<close> a recurrent hidden state, \<open>'l\<close> a log-probability tensor.

  \<^item> \<open>env_reset\<close> is \<^verbatim>\<open>env.reset()\<close> and \<open>env_step\<close> is \<^verbatim>\<open>env.step(action)\<close>, which
    returns the next observation, the reward and the done flag; both return the
    environment object as they leave it.
  \<^item> \<open>act\<close> is \<^verbatim>\<open>act(policy_network, state, hx, recurrent, exploration_rate)\<close>; the
    network is given by its parameters and its training flag, and the random
    generator is threaded through.
  \<^item> \<open>item\<close> is the value held by a log-probability tensor.
  \<^item> \<open>Adam\<close> is \<^verbatim>\<open>optim.Adam(policy_network.parameters(), lr, weight_decay)\<close>.
  \<^item> \<open>zero_grad\<close>, \<open>backward\<close> and \<open>step\<close> are \<^verbatim>\<open>optimizer.zero_grad()\<close>,
    \<^verbatim>\<open>loss.backward()\<close> and \<^verbatim>\<open>optimizer.step()\<close>.
\<close>

text \<open>
  The loss tensor: its value, and the log-probability tensors and rewards that its
  autograd graph leads back to.
\<close>

datatype 'l loss = Loss fl "'l list" "real list"

record ('p, 'e, 'g, 'o, 's, 'a, 'h, 'l) collab =
  env_reset :: "'e \<Rightarrow> 's \<times> 'e"
  env_step :: "'e \<Rightarrow> 'a \<Rightarrow> ('s \<times> real \<times> bool) \<times> 'e"
  act :: "'p \<Rightarrow> bool \<Rightarrow> 's \<Rightarrow> 'h option \<Rightarrow> bool \<Rightarrow> real \<Rightarrow> 'g \<Rightarrow> ('a \<times> 'l \<times> 'h option) \<times> 'g"
  item :: "'l \<Rightarrow> real"
  Adam :: "'p \<Rightarrow> real \<Rightarrow> real \<Rightarrow> 'o"
  zero_grad :: "'p \<Rightarrow> 'p"
  backward :: "'l loss \<Rightarrow> 'p \<Rightarrow> 'p"
  step :: "'o \<Rightarrow> 'p \<Rightarrow> 'o \<times> 'p"

text \<open>
  The arguments of \<^verbatim>\<open>reinforce\<close> that are plain values, under the names of the
  source. \<open>exploration_rate\<close> and \<open>exploration_min\<close> are the values passed by the
  caller; the source assigns to both, so the variables live in the frame below.
\<close>

record args =
  alpha :: real
  weight_decay :: real
  exploration_rate :: real
  exploration_decay :: real
  exploration_min :: real
  num_episodes :: int
  max_episode_length :: int
  train :: bool
  print_res :: bool
  print_freq :: int
  recurrent :: bool
  early_stopping :: bool
  early_stopping_freq :: int

text \<open>The default values of the signature, line 27.\<close>

definition default_args :: args where
  "default_args =
     \<lparr>alpha = 1 / 1000, weight_decay = 1 / 100000, exploration_rate = 1,
      exploration_decay = 1 - 1 / 10000, exploration_min = 0, num_episodes = 1000,
      max_episode_length = 2147483647, train = True, print_res = True, print_freq = 100,
      recurrent = False, early_stopping = False, early_stopping_freq = 100\<rparr>"

text \<open>
  The objects that \<^verbatim>\<open>reinforce\<close> receives by reference and mutates: the policy network
  (parameters and training flag), torch's random generator, the environment and the
  validation environment (\<open>None\<close> as in the signature's default).
\<close>

record ('p, 'e, 'g) world =
  params :: 'p
  training :: bool
  generator :: 'g
  env :: 'e
  val_env :: "'e option"

text \<open>
  The frame of one call: the world and the local variables of \<^verbatim>\<open>reinforce\<close>.
  \<open>rate\<close> and \<open>rate_min\<close> are the variables \<^verbatim>\<open>exploration_rate\<close> and
  \<^verbatim>\<open>exploration_min\<close>, \<open>done_v\<close> is \<^verbatim>\<open>done\<close>. The last two fields are not
  variables of the source: \<open>act_calls\<close> logs the exploration rate and the hidden state
  passed to each call of \<open>act\<close> by this call of \<^verbatim>\<open>reinforce\<close>, in order, and
  \<open>optimize_calls\<close> counts its calls of \<^verbatim>\<open>optimize\<close>.
\<close>

record ('p, 'e, 'g, 'o, 's, 'a, 'h, 'l) frame = "('p, 'e, 'g) world" +
  optimizer :: 'o
  reward_history :: "real list"
  action_history :: "'a list list"
  total_rewards :: "real list"
  total_actions :: "'a list"
  validation_rewards :: "real list list"
  completed_episodes_counter :: int
  done_v :: bool
  state :: 's
  rate :: real
  rate_min :: real
  rewards :: "real list"
  actions :: "'a list"
  log_probs :: "'l list"
  hx :: "'h option"
  act_calls :: "(real \<times> 'h option) list"
  optimize_calls :: nat

text \<open>
  How a piece of the code ends: it falls through to the next statement, it returns
  from \<^verbatim>\<open>reinforce\<close>, or it raises; each with the frame at that point.
\<close>

datatype 'f outcome = Next 'f | Return 'f | Raised error 'f

fun final :: "'f outcome \<Rightarrow> 'f" where
  "final (Next f) = f"
| "final (Return f) = f"
| "final (Raised e f) = f"

fun and_then :: "'f outcome \<Rightarrow> ('f \<Rightarrow> 'f outcome) \<Rightarrow> 'f outcome" where
  "and_then (Next f) k = k f"
| "and_then (Return f) k = Return f"
| "and_then (Raised e f) k = Raised e f"

fun raised :: "'f outcome \<Rightarrow> error option" where
  "raised (Raised e f) = Some e"
| "raised _ = None"

section \<open>The functions of \<^verbatim>\<open>reinforce.py\<close>\<close>

text \<open>
  \<^verbatim>\<open>optimize(optimizer, loss)\<close>, lines 11 to 15: set the gradients to zero,
  backpropagate the loss, take an optimization step.
\<close>

definition optimize ::
  "('p, 'e, 'g, 'o, 's, 'a, 'h, 'l) collab \<Rightarrow> 'o \<Rightarrow> 'l loss \<Rightarrow> 'p \<Rightarrow> 'o \<times> 'p" where
  "optimize C opt l p = step C opt (backward C l (zero_grad C p))"

text \<open>
  The inner loop, lines 87 to 97, for the iterations that \<^verbatim>\<open>range(max_episode_length)\<close>
  has left. One iteration calls \<open>act\<close> and \<^verbatim>\<open>env.step\<close>, assigns \<^verbatim>\<open>state\<close>, \<^verbatim>\<open>done\<close> and
  \<^verbatim>\<open>hx\<close>, and leaves the loop if \<^verbatim>\<open>done\<close>; otherwise it appends the action, the reward
  and the log-probability and decays the exploration rate.
\<close>

fun rollout ::
  "('p, 'e, 'g, 'o, 's, 'a, 'h, 'l) collab \<Rightarrow> args \<Rightarrow> nat \<Rightarrow>
   ('p, 'e, 'g, 'o, 's, 'a, 'h, 'l) frame \<Rightarrow> ('p, 'e, 'g, 'o, 's, 'a, 'h, 'l) frame" where
  "rollout C A 0 f = f"
| "rollout C A (Suc n) f =
     (case act C (params f) (training f) (state f) (hx f) (recurrent A) (rate f) (generator f) of
        ((action, log_prob, hx'), g) \<Rightarrow>
          (case env_step C (env f) action of
             ((s, reward, d), e) \<Rightarrow>
               (let f = f\<lparr>generator := g, hx := hx', state := s, done_v := d, env := e,
                          act_calls := act_calls f @ [(rate f, hx f)]\<rparr>
                in if d then f
                   else rollout C A n
                          (f\<lparr>actions := actions f @ [action],
                             rewards := rewards f @ [reward],
                             log_probs := log_probs f @ [log_prob],
                             rate := max (rate f * exploration_decay A) (rate_min f)\<rparr>))))"

text \<open>
  Lines 99 to 101: in training mode, compute the policy loss of the trajectory and
  optimize. An exception of \<^verbatim>\<open>get_policy_loss\<close> propagates.
\<close>

definition train_step ::
  "('p, 'e, 'g, 'o, 's, 'a, 'h, 'l) collab \<Rightarrow> args \<Rightarrow>
   ('p, 'e, 'g, 'o, 's, 'a, 'h, 'l) frame \<Rightarrow> ('p, 'e, 'g, 'o, 's, 'a, 'h, 'l) frame outcome" where
  "train_step C A f =
     (if train A then
        (case get_policy_loss (rewards f) (map (item C) (log_probs f)) of
           Inl e \<Rightarrow> Raised e f
         | Inr l \<Rightarrow>
             (case optimize C (optimizer f) (Loss l (log_probs f) (rewards f)) (params f) of
                (opt, p) \<Rightarrow>
                  Next (f\<lparr>optimizer := opt, params := p,
                          optimize_calls := Suc (optimize_calls f)\<rparr>)))
      else Next f)"

text \<open>
  Lines 103 to 112: extend the accumulators of the running episode; if the episode is
  done, append its record to the two histories, reset the environment, clear the
  accumulators and count the episode.
\<close>

definition record_episode ::
  "('p, 'e, 'g, 'o, 's, 'a, 'h, 'l) collab \<Rightarrow>
   ('p, 'e, 'g, 'o, 's, 'a, 'h, 'l) frame \<Rightarrow> ('p, 'e, 'g, 'o, 's, 'a, 'h, 'l) frame" where
  "record_episode C f =
     (let f = f\<lparr>total_rewards := total_rewards f @ rewards f,
                total_actions := total_actions f @ actions f\<rparr>
      in if done_v f then
           (case env_reset C (env f) of
              (s, e) \<Rightarrow>
                f\<lparr>reward_history := reward_history f @ [sum_list (total_rewards f)],
                  action_history := action_history f @ [total_actions f],
                  state := s, env := e,
                  total_rewards := [], total_actions := [],
                  completed_episodes_counter := completed_episodes_counter f + 1\<rparr>)
         else f)"

text \<open>
  Lines 114 to 119: the condition of the progress report. Printing changes no
  variable; the modulo raises ZeroDivisionError when \<^verbatim>\<open>print_freq\<close> is 0, and
  \<^verbatim>\<open>and\<close> evaluates it only when \<^verbatim>\<open>done and print_res\<close> holds.
\<close>

definition report ::
  "args \<Rightarrow> ('p, 'e, 'g, 'o, 's, 'a, 'h, 'l) frame \<Rightarrow> ('p, 'e, 'g, 'o, 's, 'a, 'h, 'l) frame outcome" where
  "report A f =
     (if done_v f \<and> print_res A \<and> print_freq A = 0 then Raised ZeroDivisionError f
      else Next f)"

text \<open>
  The condition of line 123,
  \<^verbatim>\<open>len(validation_rewards) > 0 and val_reward[0] < validation_rewards[-1]\<close>.
  \<^verbatim>\<open>val_reward\<close> and the entries of \<^verbatim>\<open>validation_rewards\<close> are arrays. Indexing an
  empty \<^verbatim>\<open>val_reward\<close> raises IndexError. The comparison of a number with an array is
  an array of booleans; as a condition, an array of one element is that element, an
  empty array is false (NumPy before 2.2, with a deprecation warning), and a longer
  array raises ValueError.
\<close>

definition worse :: "real list list \<Rightarrow> real list \<Rightarrow> error + bool" where
  "worse recorded val_reward =
     (if recorded = [] then Inr False
      else (case val_reward of
              [] \<Rightarrow> Inl IndexError
            | x # _ \<Rightarrow>
                (case last recorded of
                   [] \<Rightarrow> Inr False
                 | [y] \<Rightarrow> Inr (x < y)
                 | _ \<Rightarrow> Inl ValueError)))"

text \<open>
  The arguments of the nested call of line 122; the arguments that it does not name
  have their default values.
\<close>

definition validation_args :: "bool \<Rightarrow> args" where
  "validation_args rec =
     default_args\<lparr>train := False, num_episodes := 1, print_res := False, recurrent := rec,
                  exploration_rate := 0, exploration_min := 0\<rparr>"

text \<open>
  Lines 123 to 125, after the nested call of \<^verbatim>\<open>reinforce\<close> has ended with the outcome
  \<open>r\<close>. The network, the random generator and the validation environment are left as
  the nested call leaves them, and an exception of the nested call propagates.
  Otherwise \<^verbatim>\<open>val_reward\<close> is the reward history that the nested call returns: the
  call returns at once if it is worse than the last recorded one, and records it if
  not.
\<close>

definition early_stop ::
  "('p, 'e, 'g, 'o, 's, 'a, 'h, 'l) frame outcome \<Rightarrow>
   ('p, 'e, 'g, 'o, 's, 'a, 'h, 'l) frame \<Rightarrow> ('p, 'e, 'g, 'o, 's, 'a, 'h, 'l) frame outcome" where
  "early_stop r f =
     (let vf = final r;
          f = f\<lparr>params := params vf, training := training vf,
                 generator := generator vf, val_env := Some (env vf)\<rparr>
      in case r of
           Raised e _ \<Rightarrow> Raised e f
         | _ \<Rightarrow>
             (let val_reward = reward_history vf
              in case worse (validation_rewards f) val_reward of
                   Inl e \<Rightarrow> Raised e f
                 | Inr True \<Rightarrow> Return f
                 | Inr False \<Rightarrow>
                     Next (f\<lparr>validation_rewards := validation_rewards f @ [val_reward]\<rparr>)))"

text \<open>
  Lines 121 to 125. \<open>nested\<close> is the nested call of \<^verbatim>\<open>reinforce\<close> at line 122: it gets
  arguments and a world whose environment is the validation environment, and ends with
  a frame. With no validation environment (\<^verbatim>\<open>val_env=None\<close>) the nested call raises
  AttributeError at its first \<^verbatim>\<open>env.reset()\<close>. The modulo raises ZeroDivisionError
  when \<^verbatim>\<open>early_stopping_freq\<close> is 0.
\<close>

definition validate ::
  "(args \<Rightarrow> ('p, 'e, 'g) world \<Rightarrow> ('p, 'e, 'g, 'o, 's, 'a, 'h, 'l) frame outcome) \<Rightarrow> args \<Rightarrow>
   ('p, 'e, 'g, 'o, 's, 'a, 'h, 'l) frame \<Rightarrow> ('p, 'e, 'g, 'o, 's, 'a, 'h, 'l) frame outcome" where
  "validate nested A f =
     (if done_v f \<and> early_stopping A then
        (if early_stopping_freq A = 0 then Raised ZeroDivisionError f
         else if completed_episodes_counter f mod early_stopping_freq A = 0 then
           (case val_env f of
              None \<Rightarrow> Raised AttributeError f
            | Some ve \<Rightarrow>
                early_stop
                  (nested (validation_args (recurrent A))
                     \<lparr>params = params f, training = training f,
                      generator = generator f, env = ve, val_env = None\<rparr>)
                  f)
         else Next f)
      else Next f)"

text \<open>
  Lines 82 to 97: the fresh lists and hidden state of an outer iteration, and its inner
  loop.
\<close>

definition trajectory ::
  "('p, 'e, 'g, 'o, 's, 'a, 'h, 'l) collab \<Rightarrow> args \<Rightarrow>
   ('p, 'e, 'g, 'o, 's, 'a, 'h, 'l) frame \<Rightarrow> ('p, 'e, 'g, 'o, 's, 'a, 'h, 'l) frame" where
  "trajectory C A f =
     rollout C A (nat (max_episode_length A))
       (f\<lparr>rewards := [], actions := [], log_probs := [], hx := None\<rparr>)"

text \<open>The body of the outer loop, lines 82 to 125.\<close>

definition episode ::
  "('p, 'e, 'g, 'o, 's, 'a, 'h, 'l) collab \<Rightarrow>
   (args \<Rightarrow> ('p, 'e, 'g) world \<Rightarrow> ('p, 'e, 'g, 'o, 's, 'a, 'h, 'l) frame outcome) \<Rightarrow> args \<Rightarrow>
   ('p, 'e, 'g, 'o, 's, 'a, 'h, 'l) frame \<Rightarrow> ('p, 'e, 'g, 'o, 's, 'a, 'h, 'l) frame outcome" where
  "episode C nested A f =
     and_then (train_step C A (trajectory C A f))
       (\<lambda>f. and_then (report A (record_episode C f)) (validate nested A))"

text \<open>
  The outer loop, line 81, for the iterations that \<^verbatim>\<open>range(num_episodes)\<close> has left,
  and the \<^verbatim>\<open>return\<close> of line 127 after the last one.
\<close>

fun episodes ::
  "('p, 'e, 'g, 'o, 's, 'a, 'h, 'l) collab \<Rightarrow>
   (args \<Rightarrow> ('p, 'e, 'g) world \<Rightarrow> ('p, 'e, 'g, 'o, 's, 'a, 'h, 'l) frame outcome) \<Rightarrow> args \<Rightarrow> nat \<Rightarrow>
   ('p, 'e, 'g, 'o, 's, 'a, 'h, 'l) frame \<Rightarrow> ('p, 'e, 'g, 'o, 's, 'a, 'h, 'l) frame outcome" where
  "episodes C nested A 0 f = Return f"
| "episodes C nested A (Suc n) f =
     (case episode C nested A f of
        Next f' \<Rightarrow> episodes C nested A n f'
      | Return f' \<Rightarrow> Return f'
      | Raised e f' \<Rightarrow> Raised e f')"

text \<open>
  Lines 57 to 79: the optimizer, the empty histories, the two calls of \<^verbatim>\<open>env.reset()\<close>
  (lines 65 and 75), and the mode of the network; outside training mode both
  \<^verbatim>\<open>exploration_min\<close> and \<^verbatim>\<open>exploration_rate\<close> are set to 0.
\<close>

definition initial_frame ::
  "('p, 'e, 'g, 'o, 's, 'a, 'h, 'l) collab \<Rightarrow> args \<Rightarrow> ('p, 'e, 'g) world \<Rightarrow>
   ('p, 'e, 'g, 'o, 's, 'a, 'h, 'l) frame" where
  "initial_frame C A w =
     (case env_reset C (env w) of
        (s0, e0) \<Rightarrow>
          (case env_reset C e0 of
             (s, e) \<Rightarrow>
               \<lparr>params = params w, training = train A, generator = generator w,
                env = e, val_env = val_env w,
                optimizer = Adam C (params w) (alpha A) (weight_decay A),
                reward_history = [], action_history = [],
                total_rewards = [], total_actions = [], validation_rewards = [],
                completed_episodes_counter = 0, done_v = False, state = s,
                rate = (if train A then exploration_rate A else 0),
                rate_min = (if train A then exploration_min A else 0),
                rewards = [], actions = [], log_probs = [], hx = None,
                act_calls = [], optimize_calls = 0\<rparr>))"

text \<open>
  One call of \<^verbatim>\<open>reinforce\<close>, given what its nested calls do. It returns
  \<^verbatim>\<open>np.array(reward_history), np.array(action_history)\<close>, the two histories of the
  final frame.
\<close>

definition reinforce_with ::
  "(args \<Rightarrow> ('p, 'e, 'g) world \<Rightarrow> ('p, 'e, 'g, 'o, 's, 'a, 'h, 'l) frame outcome) \<Rightarrow>
   ('p, 'e, 'g, 'o, 's, 'a, 'h, 'l) collab \<Rightarrow> args \<Rightarrow> ('p, 'e, 'g) world \<Rightarrow>
   ('p, 'e, 'g, 'o, 's, 'a, 'h, 'l) frame outcome" where
  "reinforce_with nested C A w = episodes C nested A (nat (num_episodes A)) (initial_frame C A w)"

text \<open>
  \<^verbatim>\<open>reinforce\<close> calls itself at line 122, with \<^verbatim>\<open>early_stopping\<close> at its default
  \<open>False\<close>, so that the nested call reaches no call of its own: the recursion has depth
  at most 1. \<open>validation_run\<close> is \<^verbatim>\<open>reinforce\<close> at depth 1, where a further nested call
  would be Python's RecursionError; \<open>reinforce\<close> is the call of the user.
\<close>

definition validation_run ::
  "('p, 'e, 'g, 'o, 's, 'a, 'h, 'l) collab \<Rightarrow> args \<Rightarrow> ('p, 'e, 'g) world \<Rightarrow>
   ('p, 'e, 'g, 'o, 's, 'a, 'h, 'l) frame outcome" where
  "validation_run C A w = reinforce_with (\<lambda>A' w'. Raised RecursionError (initial_frame C A' w')) C A w"

definition reinforce ::
  "('p, 'e, 'g, 'o, 's, 'a, 'h, 'l) collab \<Rightarrow> args \<Rightarrow> ('p, 'e, 'g) world \<Rightarrow>
   ('p, 'e, 'g, 'o, 's, 'a, 'h, 'l) frame outcome" where
  "reinforce C A w = reinforce_with (validation_run C) C A w"

section \<open>A fake environment and fake collaborators\<close>

text \<open>
  Concrete collaborators, on which the model can be run. An environment object is a
  pair: the number of steps taken since the last reset and the number of episodes
  finished so far. An episode has the rewards \<open>rs\<close>, each lowered by \<open>drift\<close> for every
  episode finished before; the step after the last reward signals done. The action
  selector answers with the observation as action, a fixed log-probability and the
  observation as hidden state; the optimizer adds 1 to a parameter that is a number.
\<close>

definition fake ::
  "real list \<Rightarrow> real \<Rightarrow> (nat, nat \<times> nat, nat, nat, nat, nat, nat, real) collab" where
  "fake rs drift =
     \<lparr>env_reset = (\<lambda>(pos, fin). (0, (0, fin))),
      env_step = (\<lambda>(pos, fin) a.
         if pos < length rs then ((pos + 1, rs ! pos - drift * real fin, False), (pos + 1, fin))
         else ((pos + 1, 0, True), (pos + 1, fin + 1))),
      act = (\<lambda>p t s h rec r g. ((s, - 1 - real s, Some s), g + 1)),
      item = (\<lambda>l. l),
      Adam = (\<lambda>p lr wd. 0),
      zero_grad = (\<lambda>p. p),
      backward = (\<lambda>l p. p),
      step = (\<lambda>opt p. (opt + 1, p + 1))\<rparr>"

definition world0 :: "(nat, nat \<times> nat, nat) world" where
  "world0 = \<lparr>params = 0, training = False, generator = 0, env = (0, 0), val_env = None\<rparr>"

text \<open>
  The interaction with the environment that the inner loop is measured against: the
  steps that \<open>n\<close> rounds of calling the action selector and then the environment take
  from a frame when no round ever leaves, each with the exploration rate and the hidden
  state passed to the action selector, the action and the log-probability that it
  answers, and the reward and the done flag that \<^verbatim>\<open>env.step\<close> returns. Nothing is
  recorded in the frame; the exploration rate decays after every step.
\<close>

record ('a, 'h, 'l) step =
  step_rate :: real
  step_hx :: "'h option"
  step_action :: 'a
  step_log_prob :: 'l
  step_reward :: real
  step_done :: bool

fun interaction ::
  "('p, 'e, 'g, 'o, 's, 'a, 'h, 'l) collab \<Rightarrow> args \<Rightarrow> nat \<Rightarrow>
   ('p, 'e, 'g, 'o, 's, 'a, 'h, 'l) frame \<Rightarrow> ('a, 'h, 'l) step list" where
  "interaction C A 0 f = []"
| "interaction C A (Suc n) f =
     (case act C (params f) (training f) (state f) (hx f) (recurrent A) (rate f) (generator f) of
        ((action, log_prob, hx'), g) \<Rightarrow>
          (case env_step C (env f) action of
             ((s, reward, d), e) \<Rightarrow>
               \<lparr>step_rate = rate f, step_hx = hx f, step_action = action,
                step_log_prob = log_prob, step_reward = reward, step_done = d\<rparr>
               # interaction C A n
                   (f\<lparr>generator := g, hx := hx', state := s, env := e,
                      rate := max (rate f * exploration_decay A) (rate_min f)\<rparr>)))"

text \<open>
  An environment object that is deterministic for an episode, whatever the actions:
  its next steps yield the rewards \<open>rs\<close>, one by one and without the done flag, and the
  step after them signals done.
\<close>

fun plays :: "('p, 'e, 'g, 'o, 's, 'a, 'h, 'l) collab \<Rightarrow> 'e \<Rightarrow> real list \<Rightarrow> bool" where
  "plays C e [] = (\<forall>a. snd (snd (fst (env_step C e a))))"
| "plays C e (r # rs) =
     (\<forall>a. fst (snd (fst (env_step C e a))) = r \<and> \<not> snd (snd (fst (env_step C e a)))
          \<and> plays C (snd (env_step C e a)) rs)"



section \<open>The policy loss\<close>





lemma normalized_single: "normalized_rewards [r] = [NaN]"
  by (simp add: normalized_rewards_def tensor_std_def tensor_mean_def)

lemma tensor_sum_mul_const:
  "tensor_sum (map (\<lambda>x. fl_mul x (Fin c)) xs) = fl_mul (Fin c) (tensor_sum xs)"
proof (induction xs)
  case Nil show ?case by simp
next
  case (Cons x xs)
  show ?case
    by (cases x; cases "tensor_sum xs") (simp_all add: Cons algebra_simps)
qed

lemma length_normalized: "length (normalized_rewards rs) = length rs"
  by (simp add: normalized_rewards_def Let_def)

lemma loss_formula:
  assumes "rs \<noteq> []" "length lps = length rs"
  shows "get_policy_loss rs lps =
           Inr (fl_mul (Fin (- 1)) (tensor_sum (map2 fl_mul (map Fin lps) (normalized_rewards rs))))"
proof (cases lps)
  case Nil
  with assms show ?thesis by simp
next
  case (Cons l ls)
  show ?thesis
  proof (cases ls)
    case Nil
    with Cons assms obtain r where r: "rs = [r]"
      by (cases rs) auto
    obtain y where y: "normalized_rewards [r] = [y]"
      using length_normalized[of "[r]"] by (cases "normalized_rewards [r]") auto
    show ?thesis using Cons Nil r y
      by (cases y) (simp_all add: get_policy_loss_def)
  next
    case (Cons l' ls')
    have sq: "stack_squeeze lps = Inr (Vec (map Fin lps))"
      using \<open>lps = l # ls\<close> Cons by simp
    have len: "length (map Fin lps) = length (normalized_rewards rs)"
      using assms by (simp add: length_normalized)
    show ?thesis
      using len tensor_sum_mul_const[of "- 1" "map2 fl_mul (map Fin lps) (normalized_rewards rs)"]
      by (simp add: get_policy_loss_def sq)
  qed
qed











text \<open>
  Claim C5 fails on the code. For a single reward, torch's unbiased standard deviation
  is the square root of 0/0, which is nan; adding \<open>eps\<close> leaves nan, so the normalized
  reward is nan and so is the loss. Nothing is raised, and the value is not finite.
\<close>

theorem single_reward_not_finite:
  "normalized_rewards [r] = [NaN] \<and> \<not> is_finite (hd (normalized_rewards [r]))
   \<and> get_policy_loss [r] [l] = Inr NaN"
  by (simp add: normalized_single get_policy_loss_def)

section \<open>The inner loop\<close>

lemma rollout_keeps:
  "params (rollout C A n f) = params f"
  "training (rollout C A n f) = training f"
  "val_env (rollout C A n f) = val_env f"
  "optimizer (rollout C A n f) = optimizer f"
  "reward_history (rollout C A n f) = reward_history f"
  "action_history (rollout C A n f) = action_history f"
  "total_rewards (rollout C A n f) = total_rewards f"
  "total_actions (rollout C A n f) = total_actions f"
  "validation_rewards (rollout C A n f) = validation_rewards f"
  "completed_episodes_counter (rollout C A n f) = completed_episodes_counter f"
  "rate_min (rollout C A n f) = rate_min f"
  "optimize_calls (rollout C A n f) = optimize_calls f"
  by (induction n arbitrary: f; simp add: Let_def split: prod.splits)+

lemma rollout_lengths:
  assumes "length (log_probs f) = length (rewards f)" "length (actions f) = length (rewards f)"
  shows "length (log_probs (rollout C A n f)) = length (rewards (rollout C A n f))"
    and "length (actions (rollout C A n f)) = length (rewards (rollout C A n f))"
  using assms by (induction n arbitrary: f; simp add: Let_def split: prod.splits)+



lemma rollout_Suc_cases:
  obtains (stop) g h s e where
    "rollout C A (Suc n) f =
       f\<lparr>generator := g, hx := h, state := s, done_v := True, env := e,
         act_calls := act_calls f @ [(rate f, hx f)]\<rparr>"
  | (go) g h s e action reward log_prob where
    "rollout C A (Suc n) f =
       rollout C A n
         (f\<lparr>generator := g, hx := h, state := s, done_v := False, env := e,
            act_calls := act_calls f @ [(rate f, hx f)],
            actions := actions f @ [action], rewards := rewards f @ [reward],
            log_probs := log_probs f @ [log_prob],
            rate := max (rate f * exploration_decay A) (rate_min f)\<rparr>)"
proof -
  obtain action log_prob h g where a:
    "act C (params f) (training f) (state f) (hx f) (recurrent A) (rate f) (generator f)
       = ((action, log_prob, h), g)"
    by (cases "act C (params f) (training f) (state f) (hx f) (recurrent A) (rate f) (generator f)") auto
  obtain s reward d e where st: "env_step C (env f) action = ((s, reward, d), e)"
    by (cases "env_step C (env f) action") auto
  show thesis
  proof (cases d)
    case True
    with a st have "rollout C A (Suc n) f =
       f\<lparr>generator := g, hx := h, state := s, done_v := True, env := e,
         act_calls := act_calls f @ [(rate f, hx f)]\<rparr>" by simp
    then show thesis by (rule stop)
  next
    case False
    with a st have "rollout C A (Suc n) f =
       rollout C A n
         (f\<lparr>generator := g, hx := h, state := s, done_v := False, env := e,
            act_calls := act_calls f @ [(rate f, hx f)],
            actions := actions f @ [action], rewards := rewards f @ [reward],
            log_probs := log_probs f @ [log_prob],
            rate := max (rate f * exploration_decay A) (rate_min f)\<rparr>)" by simp
    then show thesis by (rule go)
  qed
qed

lemma rollout_shape:
  "\<exists>k. length (rewards (rollout C A n f)) = length (rewards f) + k
     \<and> (k < n \<and> done_v (rollout C A n f)
            \<and> length (act_calls (rollout C A n f)) = length (act_calls f) + k + 1
        \<or> k = n \<and> length (act_calls (rollout C A n f)) = length (act_calls f) + n
            \<and> (n = 0 \<or> \<not> done_v (rollout C A n f)))"
proof (induction n arbitrary: f)
  case 0
  show ?case by simp
next
  case (Suc n)
  show ?case
  proof (cases rule: rollout_Suc_cases[of C A n f])
    case (stop g h s e)
    show ?thesis unfolding stop by simp
  next
    case (go g h s e action reward log_prob)
    let ?f2 = "f\<lparr>generator := g, hx := h, state := s, done_v := False, env := e,
            act_calls := act_calls f @ [(rate f, hx f)],
            actions := actions f @ [action], rewards := rewards f @ [reward],
            log_probs := log_probs f @ [log_prob],
            rate := max (rate f * exploration_decay A) (rate_min f)\<rparr>"
    from Suc[of ?f2] obtain k where k:
      "length (rewards (rollout C A n ?f2)) = length (rewards ?f2) + k"
      "k < n \<and> done_v (rollout C A n ?f2)
            \<and> length (act_calls (rollout C A n ?f2)) = length (act_calls ?f2) + k + 1
        \<or> k = n \<and> length (act_calls (rollout C A n ?f2)) = length (act_calls ?f2) + n
            \<and> (n = 0 \<or> \<not> done_v (rollout C A n ?f2))"
      by blast
    have d0: "n = 0 \<Longrightarrow> \<not> done_v (rollout C A n ?f2)" by simp
    show ?thesis
      unfolding go
      apply (rule exI[of _ "Suc k"])
      using k d0 by auto
  qed
qed

lemma rollout_calls_prefix:
  "\<exists>cs. act_calls (rollout C A n f) = act_calls f @ cs"
proof (induction n arbitrary: f)
  case 0
  show ?case by simp
next
  case (Suc n)
  show ?case
  proof (cases rule: rollout_Suc_cases[of C A n f])
    case (stop g h s e)
    show ?thesis unfolding stop by simp
  next
    case (go g h s e action reward log_prob)
    let ?f2 = "f\<lparr>generator := g, hx := h, state := s, done_v := False, env := e,
            act_calls := act_calls f @ [(rate f, hx f)],
            actions := actions f @ [action], rewards := rewards f @ [reward],
            log_probs := log_probs f @ [log_prob],
            rate := max (rate f * exploration_decay A) (rate_min f)\<rparr>"
    from Suc[of ?f2] obtain cs where "act_calls (rollout C A n ?f2) = act_calls ?f2 @ cs"
      by blast
    then show ?thesis unfolding go by simp
  qed
qed

lemma rollout_first_call:
  "0 < n \<Longrightarrow> \<exists>cs. act_calls (rollout C A n f) = act_calls f @ (rate f, hx f) # cs"
proof (cases n)
  case 0
  assume "0 < n" with 0 show ?thesis by simp
next
  case (Suc m)
  show ?thesis
  proof (cases rule: rollout_Suc_cases[of C A m f])
    case (stop g h s e)
    show ?thesis unfolding Suc stop by simp
  next
    case (go g h s e action reward log_prob)
    let ?f2 = "f\<lparr>generator := g, hx := h, state := s, done_v := False, env := e,
            act_calls := act_calls f @ [(rate f, hx f)],
            actions := actions f @ [action], rewards := rewards f @ [reward],
            log_probs := log_probs f @ [log_prob],
            rate := max (rate f * exploration_decay A) (rate_min f)\<rparr>"
    from rollout_calls_prefix[of C A m ?f2] obtain cs where
      "act_calls (rollout C A m ?f2) = act_calls ?f2 @ cs" by blast
    then show ?thesis unfolding Suc go by simp
  qed
qed

section \<open>The steps of an outer iteration\<close>

lemma final_and_then:
  "final (and_then r k) = (case r of Next f \<Rightarrow> final (k f) | _ \<Rightarrow> final r)"
  by (cases r) simp_all

lemma train_step_cases:
  "train_step C A f = Next f \<and> \<not> train A
   \<or> (\<exists>e. train_step C A f = Raised e f \<and> train A
          \<and> get_policy_loss (rewards f) (map (item C) (log_probs f)) = Inl e)
   \<or> (\<exists>opt p. train_step C A f =
          Next (f\<lparr>optimizer := opt, params := p, optimize_calls := Suc (optimize_calls f)\<rparr>)
        \<and> train A)"
  by (auto simp: train_step_def split: sum.splits prod.splits)

lemma report_cases:
  "report A f = Next f \<or> report A f = Raised ZeroDivisionError f"
  by (simp add: report_def)

lemma record_episode_cases:
  "\<not> done_v f \<and> record_episode C f =
       f\<lparr>total_rewards := total_rewards f @ rewards f,
         total_actions := total_actions f @ actions f\<rparr>
   \<or> done_v f \<and> (\<exists>s e. record_episode C f =
       f\<lparr>reward_history := reward_history f @ [sum_list (total_rewards f @ rewards f)],
         action_history := action_history f @ [total_actions f @ actions f],
         state := s, env := e, total_rewards := [], total_actions := [],
         completed_episodes_counter := completed_episodes_counter f + 1\<rparr>)"
  by (cases "env_reset C (env f)") (auto simp: record_episode_def Let_def)



lemma early_stop_keeps:
  "env (final (early_stop r f)) = env f"
  "optimizer (final (early_stop r f)) = optimizer f"
  "reward_history (final (early_stop r f)) = reward_history f"
  "action_history (final (early_stop r f)) = action_history f"
  "total_rewards (final (early_stop r f)) = total_rewards f"
  "total_actions (final (early_stop r f)) = total_actions f"
  "completed_episodes_counter (final (early_stop r f)) = completed_episodes_counter f"
  "done_v (final (early_stop r f)) = done_v f"
  "state (final (early_stop r f)) = state f"
  "rate (final (early_stop r f)) = rate f"
  "rate_min (final (early_stop r f)) = rate_min f"
  "rewards (final (early_stop r f)) = rewards f"
  "actions (final (early_stop r f)) = actions f"
  "log_probs (final (early_stop r f)) = log_probs f"
  "hx (final (early_stop r f)) = hx f"
  "act_calls (final (early_stop r f)) = act_calls f"
  "optimize_calls (final (early_stop r f)) = optimize_calls f"
  by (simp_all add: early_stop_def Let_def split: outcome.splits sum.splits bool.splits)

lemma early_stop_world:
  "params (final (early_stop r f)) = params (final r)"
  "training (final (early_stop r f)) = training (final r)"
  "generator (final (early_stop r f)) = generator (final r)"
  "val_env (final (early_stop r f)) = Some (env (final r))"
  by (simp_all add: early_stop_def Let_def split: outcome.splits sum.splits bool.splits)

lemma validate_keeps:
  "env (final (validate nested A f)) = env f"
  "optimizer (final (validate nested A f)) = optimizer f"
  "reward_history (final (validate nested A f)) = reward_history f"
  "action_history (final (validate nested A f)) = action_history f"
  "total_rewards (final (validate nested A f)) = total_rewards f"
  "total_actions (final (validate nested A f)) = total_actions f"
  "completed_episodes_counter (final (validate nested A f)) = completed_episodes_counter f"
  "done_v (final (validate nested A f)) = done_v f"
  "state (final (validate nested A f)) = state f"
  "rate (final (validate nested A f)) = rate f"
  "rate_min (final (validate nested A f)) = rate_min f"
  "rewards (final (validate nested A f)) = rewards f"
  "actions (final (validate nested A f)) = actions f"
  "log_probs (final (validate nested A f)) = log_probs f"
  "hx (final (validate nested A f)) = hx f"
  "act_calls (final (validate nested A f)) = act_calls f"
  "optimize_calls (final (validate nested A f)) = optimize_calls f"
  by (simp_all add: validate_def early_stop_keeps split: option.splits)

lemma validate_params:
  assumes "\<And>w. params (final (nested (validation_args (recurrent A)) w)) = params w"
  shows "params (final (validate nested A f)) = params f"
  using assms by (simp add: validate_def early_stop_world split: option.splits)

lemma record_episode_keeps:
  "params (record_episode C f) = params f"
  "training (record_episode C f) = training f"
  "generator (record_episode C f) = generator f"
  "val_env (record_episode C f) = val_env f"
  "optimizer (record_episode C f) = optimizer f"
  "validation_rewards (record_episode C f) = validation_rewards f"
  "done_v (record_episode C f) = done_v f"
  "rate (record_episode C f) = rate f"
  "rate_min (record_episode C f) = rate_min f"
  "rewards (record_episode C f) = rewards f"
  "actions (record_episode C f) = actions f"
  "log_probs (record_episode C f) = log_probs f"
  "hx (record_episode C f) = hx f"
  "act_calls (record_episode C f) = act_calls f"
  "optimize_calls (record_episode C f) = optimize_calls f"
  by (simp_all add: record_episode_def Let_def split: prod.splits)

lemma train_step_keeps:
  "training (final (train_step C A f)) = training f"
  "generator (final (train_step C A f)) = generator f"
  "env (final (train_step C A f)) = env f"
  "val_env (final (train_step C A f)) = val_env f"
  "reward_history (final (train_step C A f)) = reward_history f"
  "action_history (final (train_step C A f)) = action_history f"
  "total_rewards (final (train_step C A f)) = total_rewards f"
  "total_actions (final (train_step C A f)) = total_actions f"
  "validation_rewards (final (train_step C A f)) = validation_rewards f"
  "completed_episodes_counter (final (train_step C A f)) = completed_episodes_counter f"
  "done_v (final (train_step C A f)) = done_v f"
  "state (final (train_step C A f)) = state f"
  "rate (final (train_step C A f)) = rate f"
  "rate_min (final (train_step C A f)) = rate_min f"
  "rewards (final (train_step C A f)) = rewards f"
  "actions (final (train_step C A f)) = actions f"
  "log_probs (final (train_step C A f)) = log_probs f"
  "hx (final (train_step C A f)) = hx f"
  "act_calls (final (train_step C A f)) = act_calls f"
  by (simp_all add: train_step_def split: sum.splits prod.splits)

lemma train_step_eval: "\<not> train A \<Longrightarrow> train_step C A f = Next f"
  by (simp add: train_step_def)

lemma episode_final_cases:
  obtains (raised) e where
      "train_step C A (trajectory C A f) = Raised e (trajectory C A f)"
      "final (episode C nested A f) = trajectory C A f"
  | (reported) f1 where
      "train_step C A (trajectory C A f) = Next f1"
      "final (episode C nested A f) = record_episode C f1"
  | (validated) f1 where
      "train_step C A (trajectory C A f) = Next f1"
      "final (episode C nested A f) = final (validate nested A (record_episode C f1))"
proof -
  let ?t = "trajectory C A f"
  from train_step_cases[of C A ?t] consider
    (a) e where "train_step C A ?t = Raised e ?t" | (b) f1 where "train_step C A ?t = Next f1"
    by blast
  then show thesis
  proof cases
    case a
    then have "final (episode C nested A f) = ?t" by (simp add: episode_def)
    with a show thesis by (rule raised)
  next
    case b
    from report_cases[of A "record_episode C f1"] show thesis
    proof
      assume r: "report A (record_episode C f1) = Next (record_episode C f1)"
      have "final (episode C nested A f) = final (validate nested A (record_episode C f1))"
        using b r by (simp add: episode_def)
      with b show thesis by (rule validated)
    next
      assume r: "report A (record_episode C f1) = Raised ZeroDivisionError (record_episode C f1)"
      have "final (episode C nested A f) = record_episode C f1"
        using b r by (simp add: episode_def)
      with b show thesis by (rule reported)
    qed
  qed
qed

lemma episode_keeps:
  "act_calls (final (episode C nested A f)) = act_calls (trajectory C A f)"
  "rate (final (episode C nested A f)) = rate (trajectory C A f)"
  "rate_min (final (episode C nested A f)) = rate_min (trajectory C A f)"
  "rewards (final (episode C nested A f)) = rewards (trajectory C A f)"
  "actions (final (episode C nested A f)) = actions (trajectory C A f)"
  "log_probs (final (episode C nested A f)) = log_probs (trajectory C A f)"
  "done_v (final (episode C nested A f)) = done_v (trajectory C A f)"
proof -
  have "act_calls (final (episode C nested A f)) = act_calls (trajectory C A f)
      \<and> rate (final (episode C nested A f)) = rate (trajectory C A f)
      \<and> rate_min (final (episode C nested A f)) = rate_min (trajectory C A f)
      \<and> rewards (final (episode C nested A f)) = rewards (trajectory C A f)
      \<and> actions (final (episode C nested A f)) = actions (trajectory C A f)
      \<and> log_probs (final (episode C nested A f)) = log_probs (trajectory C A f)
      \<and> done_v (final (episode C nested A f)) = done_v (trajectory C A f)"
  proof (cases rule: episode_final_cases[of C A f nested])
    case (raised e)
    then show ?thesis by simp
  next
    case (reported f1)
    from reported(1) have "f1 = final (train_step C A (trajectory C A f))" by simp
    then show ?thesis using reported(2) by (simp add: record_episode_keeps train_step_keeps)
  next
    case (validated f1)
    from validated(1) have "f1 = final (train_step C A (trajectory C A f))" by simp
    then show ?thesis using validated(2)
      by (simp add: validate_keeps record_episode_keeps train_step_keeps)
  qed
  then show
    "act_calls (final (episode C nested A f)) = act_calls (trajectory C A f)"
    "rate (final (episode C nested A f)) = rate (trajectory C A f)"
    "rate_min (final (episode C nested A f)) = rate_min (trajectory C A f)"
    "rewards (final (episode C nested A f)) = rewards (trajectory C A f)"
    "actions (final (episode C nested A f)) = actions (trajectory C A f)"
    "log_probs (final (episode C nested A f)) = log_probs (trajectory C A f)"
    "done_v (final (episode C nested A f)) = done_v (trajectory C A f)"
    by simp_all
qed

lemma episodes_final_rule:
  assumes "Q f" and "\<And>f. Q f \<Longrightarrow> Q (final (episode C nested A f))"
  shows "Q (final (episodes C nested A n f))"
  using assms(1)
proof (induction n arbitrary: f)
  case 0
  then show ?case by simp
next
  case (Suc n)
  from assms(2)[OF Suc.prems] have q: "Q (final (episode C nested A f))" .
  show ?case
  proof (cases "episode C nested A f")
    case (Next f')
    with q have "Q f'" by simp
    from Suc.IH[OF this] show ?thesis using Next by simp
  next
    case (Return f')
    with q show ?thesis by simp
  next
    case (Raised e f')
    with q show ?thesis by simp
  qed
qed

section \<open>Trajectories, hidden state and histories\<close>

text \<open>
  The inner loop against the interaction that never leaves: what the loop records is
  what the steps before the first done flag yield.
\<close>

lemma interaction_cong:
  "params f = params f' \<Longrightarrow> training f = training f' \<Longrightarrow> state f = state f' \<Longrightarrow>
   hx f = hx f' \<Longrightarrow> rate f = rate f' \<Longrightarrow> rate_min f = rate_min f' \<Longrightarrow>
   generator f = generator f' \<Longrightarrow> env f = env f' \<Longrightarrow>
   interaction C A n f = interaction C A n f'"
proof (induction n arbitrary: f f')
  case 0
  show ?case by simp
next
  case (Suc n)
  obtain action log_prob h g where a:
    "act C (params f) (training f) (state f) (hx f) (recurrent A) (rate f) (generator f)
       = ((action, log_prob, h), g)"
    by (cases "act C (params f) (training f) (state f) (hx f) (recurrent A) (rate f) (generator f)") auto
  obtain s reward d e where st: "env_step C (env f) action = ((s, reward, d), e)"
    by (cases "env_step C (env f) action") auto
  have a': "act C (params f') (training f') (state f') (hx f') (recurrent A) (rate f') (generator f')
       = ((action, log_prob, h), g)"
    using a Suc.prems by simp
  have st': "env_step C (env f') action = ((s, reward, d), e)" using st Suc.prems by simp
  have "interaction C A n
          (f\<lparr>generator := g, hx := h, state := s, env := e,
             rate := max (rate f * exploration_decay A) (rate_min f)\<rparr>)
        = interaction C A n
          (f'\<lparr>generator := g, hx := h, state := s, env := e,
             rate := max (rate f' * exploration_decay A) (rate_min f')\<rparr>)"
    by (rule Suc.IH) (use Suc.prems in simp_all)
  then show ?case using a st a' st' Suc.prems by simp
qed

lemma rollout_interaction:
  "actions (rollout C A n f)
     = actions f @ map step_action (takeWhile (\<lambda>x. \<not> step_done x) (interaction C A n f))
   \<and> rewards (rollout C A n f)
     = rewards f @ map step_reward (takeWhile (\<lambda>x. \<not> step_done x) (interaction C A n f))
   \<and> log_probs (rollout C A n f)
     = log_probs f @ map step_log_prob (takeWhile (\<lambda>x. \<not> step_done x) (interaction C A n f))
   \<and> act_calls (rollout C A n f)
     = act_calls f @ map (\<lambda>x. (step_rate x, step_hx x))
         (take (Suc (length (takeWhile (\<lambda>x. \<not> step_done x) (interaction C A n f))))
            (interaction C A n f))
   \<and> done_v (rollout C A n f)
     = (if n = 0 then done_v f else list_ex step_done (interaction C A n f))"
proof (induction n arbitrary: f)
  case 0
  show ?case by simp
next
  case (Suc n)
  obtain action log_prob h g where a:
    "act C (params f) (training f) (state f) (hx f) (recurrent A) (rate f) (generator f)
       = ((action, log_prob, h), g)"
    by (cases "act C (params f) (training f) (state f) (hx f) (recurrent A) (rate f) (generator f)") auto
  obtain s reward d e where st: "env_step C (env f) action = ((s, reward, d), e)"
    by (cases "env_step C (env f) action") auto
  let ?f3 = "f\<lparr>generator := g, hx := h, state := s, env := e,
               rate := max (rate f * exploration_decay A) (rate_min f)\<rparr>"
  let ?x = "\<lparr>step_rate = rate f, step_hx = hx f, step_action = action,
             step_log_prob = log_prob, step_reward = reward, step_done = d\<rparr>"
  have i: "interaction C A (Suc n) f = ?x # interaction C A n ?f3" using a st by simp
  show ?case
  proof (cases d)
    case True
    have "rollout C A (Suc n) f =
       f\<lparr>generator := g, hx := h, state := s, done_v := True, env := e,
         act_calls := act_calls f @ [(rate f, hx f)]\<rparr>"
      using a st True by simp
    then show ?thesis unfolding i using True by simp
  next
    case False
    let ?f2 = "f\<lparr>generator := g, hx := h, state := s, done_v := False, env := e,
            act_calls := act_calls f @ [(rate f, hx f)],
            actions := actions f @ [action], rewards := rewards f @ [reward],
            log_probs := log_probs f @ [log_prob],
            rate := max (rate f * exploration_decay A) (rate_min f)\<rparr>"
    have r: "rollout C A (Suc n) f = rollout C A n ?f2" using a st False by simp
    have c: "interaction C A n ?f3 = interaction C A n ?f2"
      by (rule interaction_cong) simp_all
    have z: "n = 0 \<Longrightarrow> interaction C A n ?f2 = []" by simp
    from Suc.IH[of ?f2] show ?thesis
      unfolding r i c using False z by (cases "n = 0") simp_all
  qed
qed

lemma trajectory_counts:
  "let t = trajectory C A f;
       k = length (rewards t);
       calls = length (act_calls t) - length (act_calls f);
       n = nat (max_episode_length A)
   in length (log_probs t) = k \<and> length (actions t) = k
      \<and> (if n = 0 then k = 0 \<and> calls = 0 \<and> done_v t = done_v f
         else if done_v t then k < n \<and> calls = k + 1
         else k = n \<and> calls = n)"
proof -
  let ?f0 = "f\<lparr>rewards := [], actions := [], log_probs := [], hx := None\<rparr>"
  let ?n = "nat (max_episode_length A)"
  have t: "trajectory C A f = rollout C A ?n ?f0" by (simp add: trajectory_def)
  have l: "length (log_probs (rollout C A ?n ?f0)) = length (rewards (rollout C A ?n ?f0))"
    "length (actions (rollout C A ?n ?f0)) = length (rewards (rollout C A ?n ?f0))"
    by (rule rollout_lengths; simp)+
  from rollout_shape[of C A ?n ?f0] obtain k where k:
    "length (rewards (rollout C A ?n ?f0)) = k"
    "k < ?n \<and> done_v (rollout C A ?n ?f0)
        \<and> length (act_calls (rollout C A ?n ?f0)) = length (act_calls f) + k + 1
     \<or> k = ?n \<and> length (act_calls (rollout C A ?n ?f0)) = length (act_calls f) + ?n
        \<and> (?n = 0 \<or> \<not> done_v (rollout C A ?n ?f0))"
    by auto
  have z: "?n = 0 \<Longrightarrow> rollout C A ?n ?f0 = ?f0" by simp
  show ?thesis
    unfolding t Let_def l k(1)
    using k(2) z by (cases "?n = 0") auto
qed

text \<open>
  Claim C7. Take the steps that the rounds of an outer iteration would take if none
  ever left the loop, with the done flag that \<^verbatim>\<open>env.step\<close> returns at each. The
  trajectory holds the actions, rewards and log-probabilities of exactly the steps
  before the first step whose done flag is set, in order; that step itself is taken
  (the action selector is called for it) and is not recorded, and no step after it is
  taken. \<^verbatim>\<open>done\<close> ends up set exactly when some step signals it. So the three lists
  have the same length; when the loop ends with \<^verbatim>\<open>done\<close> set it has made one call more
  than it has recorded and recorded fewer steps than \<^verbatim>\<open>max_episode_length\<close>, and
  otherwise every one of its \<^verbatim>\<open>max_episode_length\<close> steps is recorded.
\<close>

theorem rollout_stops_before_terminal_step:
  "let n = nat (max_episode_length A);
       steps = interaction C A n (f\<lparr>rewards := [], actions := [], log_probs := [], hx := None\<rparr>);
       before = takeWhile (\<lambda>x. \<not> step_done x) steps;
       t = trajectory C A f;
       k = length (rewards t);
       calls = length (act_calls t) - length (act_calls f)
   in actions t = map step_action before
      \<and> rewards t = map step_reward before
      \<and> log_probs t = map step_log_prob before
      \<and> act_calls t
          = act_calls f @ map (\<lambda>x. (step_rate x, step_hx x)) (take (Suc (length before)) steps)
      \<and> done_v t = (if n = 0 then done_v f else list_ex step_done steps)
      \<and> length (log_probs t) = k \<and> length (actions t) = k
      \<and> (if n = 0 then k = 0 \<and> calls = 0 \<and> done_v t = done_v f
         else if done_v t then k < n \<and> calls = k + 1
         else k = n \<and> calls = n)"
proof -
  let ?f0 = "f\<lparr>rewards := [], actions := [], log_probs := [], hx := None\<rparr>"
  let ?n = "nat (max_episode_length A)"
  have t: "trajectory C A f = rollout C A ?n ?f0" by (simp add: trajectory_def)
  let ?steps = "interaction C A ?n ?f0"
  let ?before = "takeWhile (\<lambda>x. \<not> step_done x) ?steps"
  have ri: "actions (trajectory C A f) = map step_action ?before
      \<and> rewards (trajectory C A f) = map step_reward ?before
      \<and> log_probs (trajectory C A f) = map step_log_prob ?before
      \<and> act_calls (trajectory C A f)
          = act_calls f @ map (\<lambda>x. (step_rate x, step_hx x)) (take (Suc (length ?before)) ?steps)
      \<and> done_v (trajectory C A f) = (if ?n = 0 then done_v f else list_ex step_done ?steps)"
    using rollout_interaction[of C A ?n ?f0] unfolding t by (cases "?n = 0") simp_all
  note tc = trajectory_counts[of C A f, unfolded Let_def]
  from ri tc show ?thesis unfolding Let_def by blast
qed

text \<open>
  Claim C10. The hidden state that an outer iteration starts from has no effect on it:
  the iteration resets \<^verbatim>\<open>hx\<close> to \<open>None\<close> first. Its first call of the action selector,
  if it makes one, passes \<open>None\<close> as hidden state.
\<close>

theorem hidden_state_reset_each_iteration:
  "episode C nested A (f\<lparr>hx := h\<rparr>) = episode C nested A f
   \<and> (if 0 < max_episode_length A
       then \<exists>cs. act_calls (final (episode C nested A f)) = act_calls f @ (rate f, None) # cs
       else act_calls (final (episode C nested A f)) = act_calls f)"
proof -
  let ?f0 = "f\<lparr>rewards := [], actions := [], log_probs := [], hx := None\<rparr>"
  have 1: "episode C nested A (f\<lparr>hx := h\<rparr>) = episode C nested A f"
    by (simp add: episode_def trajectory_def)
  have a: "act_calls (final (episode C nested A f))
             = act_calls (rollout C A (nat (max_episode_length A)) ?f0)"
    by (simp add: episode_keeps trajectory_def)
  have 2: "\<exists>cs. act_calls (final (episode C nested A f)) = act_calls f @ (rate f, None) # cs"
    if "0 < max_episode_length A"
  proof -
    from that have "0 < nat (max_episode_length A)" by simp
    from rollout_first_call[OF this, of C A ?f0] show ?thesis unfolding a by simp
  qed
  have 3: "act_calls (final (episode C nested A f)) = act_calls f"
    if "\<not> 0 < max_episode_length A"
    using that unfolding a by simp
  from 1 2 3 show ?thesis by simp
qed


lemma initial_frame_fields:
  "params (initial_frame C A w) = params w"
  "training (initial_frame C A w) = train A"
  "generator (initial_frame C A w) = generator w"
  "val_env (initial_frame C A w) = val_env w"
  "reward_history (initial_frame C A w) = []"
  "action_history (initial_frame C A w) = []"
  "total_rewards (initial_frame C A w) = []"
  "total_actions (initial_frame C A w) = []"
  "validation_rewards (initial_frame C A w) = []"
  "completed_episodes_counter (initial_frame C A w) = 0"
  "done_v (initial_frame C A w) = False"
  "rate (initial_frame C A w) = (if train A then exploration_rate A else 0)"
  "rate_min (initial_frame C A w) = (if train A then exploration_min A else 0)"
  "act_calls (initial_frame C A w) = []"
  "optimize_calls (initial_frame C A w) = 0"
  by (simp_all add: initial_frame_def split: prod.splits)




section \<open>Running the model on concrete collaborators\<close>

lemma rollout_numeral:
  "rollout C A (numeral k) f =
     (case act C (params f) (training f) (state f) (hx f) (recurrent A) (rate f) (generator f) of
        ((action, log_prob, hx'), g) \<Rightarrow>
          (case env_step C (env f) action of
             ((s, reward, d), e) \<Rightarrow>
               (let f = f\<lparr>generator := g, hx := hx', state := s, done_v := d, env := e,
                          act_calls := act_calls f @ [(rate f, hx f)]\<rparr>
                in if d then f
                   else rollout C A (pred_numeral k)
                          (f\<lparr>actions := actions f @ [action],
                             rewards := rewards f @ [reward],
                             log_probs := log_probs f @ [log_prob],
                             rate := max (rate f * exploration_decay A) (rate_min f)\<rparr>))))"
  by (simp add: numeral_eq_Suc)

lemma episodes_numeral:
  "episodes C nested A (numeral k) f =
     (case episode C nested A f of
        Next f' \<Rightarrow> episodes C nested A (pred_numeral k) f'
      | Return f' \<Rightarrow> Return f'
      | Raised e f' \<Rightarrow> Raised e f')"
  by (simp add: numeral_eq_Suc)

lemmas run_simps =
  reinforce_def reinforce_with_def validation_run_def initial_frame_def fake_def world0_def
  default_args_def episode_def trajectory_def train_step_def record_episode_def report_def
  validate_def early_stop_def validation_args_def worse_def optimize_def
  rollout_numeral episodes_numeral get_policy_loss_def length_normalized

lemma interaction_numeral:
  "interaction C A (numeral k) f =
     (case act C (params f) (training f) (state f) (hx f) (recurrent A) (rate f) (generator f) of
        ((action, log_prob, hx'), g) \<Rightarrow>
          (case env_step C (env f) action of
             ((s, reward, d), e) \<Rightarrow>
               \<lparr>step_rate = rate f, step_hx = hx f, step_action = action,
                step_log_prob = log_prob, step_reward = reward, step_done = d\<rparr>
               # interaction C A (pred_numeral k)
                   (f\<lparr>generator := g, hx := hx', state := s, env := e,
                      rate := max (rate f * exploration_decay A) (rate_min f)\<rparr>)))"
  by (simp add: numeral_eq_Suc)

text \<open>
  Five rounds on the fake environment with the rewards 1, 2: the third step signals
  done, the two steps before it are recorded, and the loop has made three calls.
\<close>

theorem rollout_stops_before_terminal_step_witness:
  "map step_done (interaction (fake [1, 2] 0) (default_args\<lparr>max_episode_length := 5\<rparr>) 5
      ((initial_frame (fake [1, 2] 0) (default_args\<lparr>max_episode_length := 5\<rparr>) world0)
         \<lparr>rewards := [], actions := [], log_probs := [], hx := None\<rparr>))
     = [False, False, True, True, True]
   \<and> map step_reward (interaction (fake [1, 2] 0) (default_args\<lparr>max_episode_length := 5\<rparr>) 5
      ((initial_frame (fake [1, 2] 0) (default_args\<lparr>max_episode_length := 5\<rparr>) world0)
         \<lparr>rewards := [], actions := [], log_probs := [], hx := None\<rparr>))
     = [1, 2, 0, 0, 0]
   \<and> rewards (trajectory (fake [1, 2] 0) (default_args\<lparr>max_episode_length := 5\<rparr>)
      (initial_frame (fake [1, 2] 0) (default_args\<lparr>max_episode_length := 5\<rparr>) world0)) = [1, 2]
   \<and> log_probs (trajectory (fake [1, 2] 0) (default_args\<lparr>max_episode_length := 5\<rparr>)
      (initial_frame (fake [1, 2] 0) (default_args\<lparr>max_episode_length := 5\<rparr>) world0)) = [- 1, - 2]
   \<and> actions (trajectory (fake [1, 2] 0) (default_args\<lparr>max_episode_length := 5\<rparr>)
      (initial_frame (fake [1, 2] 0) (default_args\<lparr>max_episode_length := 5\<rparr>) world0)) = [0, 1]
   \<and> done_v (trajectory (fake [1, 2] 0) (default_args\<lparr>max_episode_length := 5\<rparr>)
      (initial_frame (fake [1, 2] 0) (default_args\<lparr>max_episode_length := 5\<rparr>) world0))
   \<and> length (act_calls (trajectory (fake [1, 2] 0) (default_args\<lparr>max_episode_length := 5\<rparr>)
      (initial_frame (fake [1, 2] 0) (default_args\<lparr>max_episode_length := 5\<rparr>) world0))) = 3"
  using rollout_stops_before_terminal_step[where C = "fake [1, 2] 0"
      and A = "default_args\<lparr>max_episode_length := 5\<rparr>"
      and f = "initial_frame (fake [1, 2] 0) (default_args\<lparr>max_episode_length := 5\<rparr>) world0"]
  by (simp add: run_simps interaction_numeral)

text \<open>
  An outer iteration entered with a hidden state left over: its first call of the
  action selector still passes \<open>None\<close>.
\<close>

theorem hidden_state_reset_each_iteration_witness:
  "act_calls (final (episode (fake [1, 2] 0) (validation_run (fake [1, 2] 0))
      (default_args\<lparr>exploration_decay := 1 / 2\<rparr>)
      ((initial_frame (fake [1, 2] 0) (default_args\<lparr>exploration_decay := 1 / 2\<rparr>) world0)
         \<lparr>hx := Some 7\<rparr>)))
     = [(1, None), (1 / 2, Some 0), (1 / 4, Some 1)]"
  using hidden_state_reset_each_iteration[where C = "fake [1, 2] 0"
      and nested = "validation_run (fake [1, 2] 0)"
      and A = "default_args\<lparr>exploration_decay := 1 / 2\<rparr>"
      and f = "initial_frame (fake [1, 2] 0) (default_args\<lparr>exploration_decay := 1 / 2\<rparr>) world0"
      and h = "Some 7"]
  by (simp add: run_simps)


section \<open>The exploration rate and the evaluation mode\<close>

lemma rollout_zero_rates:
  assumes "rate f = 0" "rate_min f = 0" "\<forall>c\<in>set (act_calls f). fst c = 0"
  shows "rate (rollout C A n f) = 0 \<and> (\<forall>c\<in>set (act_calls (rollout C A n f)). fst c = 0)"
  using assms
proof (induction n arbitrary: f)
  case 0
  then show ?case by simp
next
  case (Suc n)
  show ?case
  proof (cases rule: rollout_Suc_cases[of C A n f])
    case (stop g h s e)
    show ?thesis unfolding stop using Suc.prems by simp
  next
    case (go g h s e action reward log_prob)
    show ?thesis unfolding go
      by (rule Suc.IH) (use Suc.prems in simp_all)
  qed
qed

lemma rollout_decaying_rates:
  assumes d: "0 < exploration_decay A" "exploration_decay A \<le> 1"
    and "rate_min f \<le> rate f" "0 \<le> rate f" "rate f \<le> U"
    and "\<forall>c\<in>set (act_calls f). rate f \<le> fst c \<and> fst c \<le> U"
    and "sorted_wrt (\<lambda>a b. b \<le> a) (map fst (act_calls f))"
  shows "rate_min f \<le> rate (rollout C A n f) \<and> 0 \<le> rate (rollout C A n f)
         \<and> rate (rollout C A n f) \<le> U
         \<and> (\<forall>c\<in>set (act_calls (rollout C A n f)).
               rate (rollout C A n f) \<le> fst c \<and> fst c \<le> U)
         \<and> sorted_wrt (\<lambda>a b. b \<le> a) (map fst (act_calls (rollout C A n f)))"
  using assms(3-)
proof (induction n arbitrary: f)
  case 0
  then show ?case by simp
next
  case (Suc n)
  show ?case
  proof (cases rule: rollout_Suc_cases[of C A n f])
    case (stop g h s e)
    show ?thesis unfolding stop using Suc.prems by (auto simp: sorted_wrt_append)
  next
    case (go g h s e action reward log_prob)
    let ?f2 = "f\<lparr>generator := g, hx := h, state := s, done_v := False, env := e,
            act_calls := act_calls f @ [(rate f, hx f)],
            actions := actions f @ [action], rewards := rewards f @ [reward],
            log_probs := log_probs f @ [log_prob],
            rate := max (rate f * exploration_decay A) (rate_min f)\<rparr>"
    have le: "rate f * exploration_decay A \<le> rate f"
      using d Suc.prems(2) by (simp add: mult_left_le)
    have nn: "0 \<le> rate f * exploration_decay A"
      using d Suc.prems(2) by simp
    have r2: "rate ?f2 \<le> rate f" "0 \<le> rate ?f2" "rate_min ?f2 \<le> rate ?f2"
      using le nn Suc.prems(1) by simp_all
    have "rate_min ?f2 \<le> rate (rollout C A n ?f2) \<and> 0 \<le> rate (rollout C A n ?f2)
         \<and> rate (rollout C A n ?f2) \<le> U
         \<and> (\<forall>c\<in>set (act_calls (rollout C A n ?f2)).
               rate (rollout C A n ?f2) \<le> fst c \<and> fst c \<le> U)
         \<and> sorted_wrt (\<lambda>a b. b \<le> a) (map fst (act_calls (rollout C A n ?f2)))"
    proof (rule Suc.IH)
      show "rate_min ?f2 \<le> rate ?f2" by (rule r2)
      show "0 \<le> rate ?f2" by (rule r2)
      show "rate ?f2 \<le> U" using r2(1) Suc.prems(3) by linarith
      show "\<forall>c\<in>set (act_calls ?f2). rate ?f2 \<le> fst c \<and> fst c \<le> U"
        using r2(1) Suc.prems(3,4) by (auto intro: order_trans)
      show "sorted_wrt (\<lambda>a b. b \<le> a) (map fst (act_calls ?f2))"
        using Suc.prems(4,5) by (auto simp: sorted_wrt_append)
    qed
    then show ?thesis unfolding go by simp
  qed
qed

lemma trajectory_keeps:
  "params (trajectory C A f) = params f"
  "training (trajectory C A f) = training f"
  "val_env (trajectory C A f) = val_env f"
  "optimizer (trajectory C A f) = optimizer f"
  "reward_history (trajectory C A f) = reward_history f"
  "action_history (trajectory C A f) = action_history f"
  "total_rewards (trajectory C A f) = total_rewards f"
  "total_actions (trajectory C A f) = total_actions f"
  "validation_rewards (trajectory C A f) = validation_rewards f"
  "completed_episodes_counter (trajectory C A f) = completed_episodes_counter f"
  "rate_min (trajectory C A f) = rate_min f"
  "optimize_calls (trajectory C A f) = optimize_calls f"
  by (simp_all add: trajectory_def rollout_keeps)

lemma episode_eval_keeps:
  assumes "\<not> train A"
    and "\<And>w. params (final (nested (validation_args (recurrent A)) w)) = params w"
  shows "params (final (episode C nested A f)) = params f"
    and "optimize_calls (final (episode C nested A f)) = optimize_calls f"
proof -
  have ts: "train_step C A (trajectory C A f) = Next (trajectory C A f)"
    using assms(1) by (rule train_step_eval)
  have "params (final (episode C nested A f)) = params f
      \<and> optimize_calls (final (episode C nested A f)) = optimize_calls f"
  proof (cases rule: episode_final_cases[of C A f nested])
    case (raised e)
    with ts show ?thesis by simp
  next
    case (reported f1)
    with ts have "f1 = trajectory C A f" by simp
    with reported(2) show ?thesis by (simp add: record_episode_keeps trajectory_keeps)
  next
    case (validated f1)
    with ts have "f1 = trajectory C A f" by simp
    with validated(2) show ?thesis
      using validate_params[of nested A "record_episode C (trajectory C A f)"] assms(2)
      by (simp add: validate_keeps record_episode_keeps trajectory_keeps)
  qed
  then show "params (final (episode C nested A f)) = params f"
    and "optimize_calls (final (episode C nested A f)) = optimize_calls f" by simp_all
qed

lemma episode_zero_rates:
  assumes "rate f = 0" "rate_min f = 0" "\<forall>c\<in>set (act_calls f). fst c = 0"
  shows "rate (final (episode C nested A f)) = 0"
    and "rate_min (final (episode C nested A f)) = 0"
    and "\<forall>c\<in>set (act_calls (final (episode C nested A f))). fst c = 0"
proof -
  let ?f0 = "f\<lparr>rewards := [], actions := [], log_probs := [], hx := None\<rparr>"
  have "rate (rollout C A (nat (max_episode_length A)) ?f0) = 0
      \<and> (\<forall>c\<in>set (act_calls (rollout C A (nat (max_episode_length A)) ?f0)). fst c = 0)"
    by (rule rollout_zero_rates) (use assms in simp_all)
  then show "rate (final (episode C nested A f)) = 0"
    and "\<forall>c\<in>set (act_calls (final (episode C nested A f))). fst c = 0"
    by (simp_all add: episode_keeps trajectory_def)
  show "rate_min (final (episode C nested A f)) = 0"
    using assms(2) by (simp add: episode_keeps trajectory_keeps)
qed

lemma reinforce_with_eval:
  assumes "\<not> train A"
    and "\<And>w. params (final (nested (validation_args (recurrent A)) w)) = params w"
  shows "params (final (reinforce_with nested C A w)) = params w
       \<and> optimize_calls (final (reinforce_with nested C A w)) = 0
       \<and> rate (final (reinforce_with nested C A w)) = 0
       \<and> (\<forall>c\<in>set (act_calls (final (reinforce_with nested C A w))). fst c = 0)"
proof -
  let ?Q = "\<lambda>f :: ('a, 'b, 'c, 'd, 'e, 'f, 'g, 'h) frame.
      params f = params w \<and> optimize_calls f = 0 \<and> rate f = 0 \<and> rate_min f = 0
      \<and> (\<forall>c\<in>set (act_calls f). fst c = 0)"
  have "?Q (final (episodes C nested A (nat (num_episodes A)) (initial_frame C A w)))"
  proof (rule episodes_final_rule[where Q = ?Q])
    show "?Q (initial_frame C A w)" using assms(1) by (simp add: initial_frame_fields)
  next
    fix f :: "('a, 'b, 'c, 'd, 'e, 'f, 'g, 'h) frame"
    assume q: "?Q f"
    then have a: "rate f = 0" "rate_min f = 0" "\<forall>c\<in>set (act_calls f). fst c = 0" by simp_all
    show "?Q (final (episode C nested A f))"
      using episode_eval_keeps[of A nested C f] assms episode_zero_rates[OF a, of C nested A] q
      by simp
  qed
  then show ?thesis by (simp add: reinforce_with_def)
qed

lemma validation_run_params:
  "params (final (validation_run C (validation_args rec) w)) = params w"
proof -
  have "\<not> train (validation_args rec)" by (simp add: validation_args_def)
  from reinforce_with_eval[of "validation_args rec" "\<lambda>A' w'. Raised RecursionError (initial_frame C A' w')" C w] this
  show ?thesis by (simp add: validation_run_def initial_frame_fields)
qed

lemma episode_decaying_rates:
  assumes d: "0 < exploration_decay A" "exploration_decay A \<le> 1"
    and q: "rate_min f = L \<and> L \<le> rate f \<and> 0 \<le> rate f \<and> rate f \<le> U
         \<and> (\<forall>c\<in>set (act_calls f). rate f \<le> fst c \<and> fst c \<le> U)
         \<and> sorted_wrt (\<lambda>a b. b \<le> a) (map fst (act_calls f))"
  shows "rate_min (final (episode C nested A f)) = L
         \<and> L \<le> rate (final (episode C nested A f))
         \<and> 0 \<le> rate (final (episode C nested A f))
         \<and> rate (final (episode C nested A f)) \<le> U
         \<and> (\<forall>c\<in>set (act_calls (final (episode C nested A f))).
               rate (final (episode C nested A f)) \<le> fst c \<and> fst c \<le> U)
         \<and> sorted_wrt (\<lambda>a b. b \<le> a) (map fst (act_calls (final (episode C nested A f))))"
proof -
  let ?f0 = "f\<lparr>rewards := [], actions := [], log_probs := [], hx := None\<rparr>"
  let ?t = "rollout C A (nat (max_episode_length A)) ?f0"
  have "rate_min ?f0 \<le> rate ?t \<and> 0 \<le> rate ?t \<and> rate ?t \<le> U
         \<and> (\<forall>c\<in>set (act_calls ?t). rate ?t \<le> fst c \<and> fst c \<le> U)
         \<and> sorted_wrt (\<lambda>a b. b \<le> a) (map fst (act_calls ?t))"
    by (rule rollout_decaying_rates[OF d]) (use q in simp_all)
  moreover have "rate_min ?t = L" using q by (simp add: rollout_keeps)
  ultimately show ?thesis
    using q by (simp add: episode_keeps trajectory_def)
qed

text \<open>
  Claim C4, as the code has it. With \<^verbatim>\<open>train=False\<close> the code sets \<^verbatim>\<open>exploration_min\<close>
  to 0 and then \<^verbatim>\<open>exploration_rate\<close> to it, so every call of the action selector gets
  the exploration rate 0, whatever rate and minimum the caller configured. The call
  never optimizes, and the parameters of the policy network are the same after the call
  as before, however the call ends.
\<close>

theorem evaluation_mode_fixed:
  assumes "\<not> train A"
  shows "let f = final (reinforce C A w)
         in (\<forall>c\<in>set (act_calls f). fst c = 0) \<and> rate f = 0
            \<and> optimize_calls f = 0 \<and> params f = params w"
  using reinforce_with_eval[of A "validation_run C" C w] assms validation_run_params[of C]
  by (simp add: reinforce_def Let_def)

text \<open>An evaluation run of one episode with a configured minimum of 1/10.\<close>

theorem evaluation_mode_fixed_witness:
  "\<not> train (default_args\<lparr>train := False, num_episodes := 1, exploration_min := 1 / 10\<rparr>)
   \<and> act_calls (final (reinforce (fake [1, 2] 0)
        (default_args\<lparr>train := False, num_episodes := 1, exploration_min := 1 / 10\<rparr>) world0))
      = [(0, None), (0, Some 0), (0, Some 1)]
   \<and> optimize_calls (final (reinforce (fake [1, 2] 0)
        (default_args\<lparr>train := False, num_episodes := 1, exploration_min := 1 / 10\<rparr>) world0)) = 0
   \<and> params (final (reinforce (fake [1, 2] 0)
        (default_args\<lparr>train := False, num_episodes := 1, exploration_min := 1 / 10\<rparr>) world0))
      = params world0"
  using evaluation_mode_fixed[of "default_args\<lparr>train := False, num_episodes := 1, exploration_min := 1 / 10\<rparr>"
      "fake [1, 2] 0" world0]
  by (simp add: run_simps)

text \<open>
  The claim as stated fails there: the configured \<^verbatim>\<open>exploration_min\<close> is 1/10, and
  the rate passed at each of the three steps is 0.
\<close>

theorem evaluation_rate_counterexample:
  "exploration_min (default_args\<lparr>train := False, num_episodes := 1, exploration_min := 1 / 10\<rparr>) = 1 / 10
   \<and> map fst (act_calls (final (reinforce (fake [1, 2] 0)
        (default_args\<lparr>train := False, num_episodes := 1, exploration_min := 1 / 10\<rparr>) world0)))
      = [0, 0, 0]"
  by (simp add: run_simps)

text \<open>
  Claim C8, as the code has it. Let the decay factor be in \<open>(0, 1]\<close> and the initial rate
  be at least \<^verbatim>\<open>exploration_min\<close> and at least 0. In training mode the rates passed
  to the action selector, followed by the rate after the last step, are non-increasing
  and all lie between \<^verbatim>\<open>exploration_min\<close> and the initial rate. In evaluation mode
  they are all 0.
\<close>

theorem exploration_rate_schedule:
  assumes "0 < exploration_decay A" "exploration_decay A \<le> 1"
    and "exploration_min A \<le> exploration_rate A" "0 \<le> exploration_rate A"
  shows "let f = final (reinforce C A w); rates = map fst (act_calls f) @ [rate f]
         in if train A
            then sorted_wrt (\<lambda>a b. b \<le> a) rates
                 \<and> (\<forall>r\<in>set rates. exploration_min A \<le> r \<and> r \<le> exploration_rate A)
            else (\<forall>r\<in>set rates. r = 0)"
proof (cases "train A")
  case False
  from reinforce_with_eval[of A "validation_run C" C w] False validation_run_params[of C]
  show ?thesis by (simp add: reinforce_def Let_def)
next
  case True
  let ?L = "exploration_min A" and ?U = "exploration_rate A"
  let ?Q = "\<lambda>f :: ('a, 'b, 'c, 'd, 'e, 'f, 'g, 'h) frame.
      rate_min f = ?L \<and> ?L \<le> rate f \<and> 0 \<le> rate f \<and> rate f \<le> ?U
         \<and> (\<forall>c\<in>set (act_calls f). rate f \<le> fst c \<and> fst c \<le> ?U)
         \<and> sorted_wrt (\<lambda>a b. b \<le> a) (map fst (act_calls f))"
  have "?Q (final (episodes C (validation_run C) A (nat (num_episodes A)) (initial_frame C A w)))"
  proof (rule episodes_final_rule[where Q = ?Q])
    show "?Q (initial_frame C A w)" using True assms by (simp add: initial_frame_fields)
  next
    fix f :: "('a, 'b, 'c, 'd, 'e, 'f, 'g, 'h) frame"
    assume "?Q f"
    then show "?Q (final (episode C (validation_run C) A f))"
      by (rule episode_decaying_rates[OF assms(1,2)])
  qed
  then have q: "?Q (final (reinforce C A w))" by (simp add: reinforce_def reinforce_with_def)
  let ?f = "final (reinforce C A w)"
  have s: "sorted_wrt (\<lambda>a b. b \<le> a) (map fst (act_calls ?f) @ [rate ?f])"
    using q by (auto simp: sorted_wrt_append)
  have b: "\<forall>r\<in>set (map fst (act_calls ?f) @ [rate ?f]). ?L \<le> r \<and> r \<le> ?U"
    using q by (auto intro: order_trans)
  from s b True show ?thesis by (simp add: Let_def)
qed

text \<open>A training run with the decay factor 1/2 and the minimum 1/4.\<close>

theorem exploration_rate_schedule_witness:
  "map fst (act_calls (final (reinforce (fake [1, 2, 3] 0)
        (default_args\<lparr>num_episodes := 1, exploration_decay := 1 / 2, exploration_min := 1 / 4\<rparr>) world0)))
      = [1, 1 / 2, 1 / 4, 1 / 4]
   \<and> rate (final (reinforce (fake [1, 2, 3] 0)
        (default_args\<lparr>num_episodes := 1, exploration_decay := 1 / 2, exploration_min := 1 / 4\<rparr>) world0))
      = 1 / 4"
  using exploration_rate_schedule[of
      "default_args\<lparr>num_episodes := 1, exploration_decay := 1 / 2, exploration_min := 1 / 4\<rparr>"
      "fake [1, 2, 3] 0" world0]
  by (simp add: run_simps)

text \<open>
  The claim as stated fails twice. In evaluation mode (decay factor and initial rate
  at their defaults, \<^verbatim>\<open>exploration_min\<close> 1/10) the rate is 0, below the configured
  minimum. In training mode with the initial rate -1, the minimum -2 and the decay
  factor 1/2, the rate increases at every step.
\<close>

theorem exploration_rate_counterexample:
  "map fst (act_calls (final (reinforce (fake [1] 0)
        (default_args\<lparr>train := False, num_episodes := 1, exploration_min := 1 / 10\<rparr>) world0)))
      = [0, 0]
   \<and> map fst (act_calls (final (reinforce (fake [1, 2, 3] 0)
        (default_args\<lparr>num_episodes := 1, exploration_rate := - 1, exploration_decay := 1 / 2,
                      exploration_min := - 2\<rparr>) world0)))
      = [- 1, - (1 / 2), - (1 / 4), - (1 / 8)]"
  by (simp add: run_simps)

section \<open>One episode of a terminating environment, and the empty trajectory\<close>

lemma rollout_plays:
  assumes "plays C (env f) rs" "length rs < n"
  shows "done_v (rollout C A n f) \<and> rewards (rollout C A n f) = rewards f @ rs
       \<and> length (actions (rollout C A n f)) = length (actions f) + length rs
       \<and> length (log_probs (rollout C A n f)) = length (log_probs f) + length rs"
  using assms
proof (induction rs arbitrary: n f)
  case Nil
  then obtain m where n: "n = Suc m" by (cases n) auto
  obtain action log_prob h g where a:
    "act C (params f) (training f) (state f) (hx f) (recurrent A) (rate f) (generator f)
       = ((action, log_prob, h), g)"
    by (cases "act C (params f) (training f) (state f) (hx f) (recurrent A) (rate f) (generator f)") auto
  obtain s reward d e where st: "env_step C (env f) action = ((s, reward, d), e)"
    by (cases "env_step C (env f) action") auto
  from Nil.prems(1) st have "d" by (auto dest: spec[of _ action])
  with a st show ?case unfolding n by simp
next
  case (Cons r rs)
  then obtain m where n: "n = Suc m" and m: "length rs < m" by (cases n) auto
  obtain action log_prob h g where a:
    "act C (params f) (training f) (state f) (hx f) (recurrent A) (rate f) (generator f)
       = ((action, log_prob, h), g)"
    by (cases "act C (params f) (training f) (state f) (hx f) (recurrent A) (rate f) (generator f)") auto
  obtain s reward d e where st: "env_step C (env f) action = ((s, reward, d), e)"
    by (cases "env_step C (env f) action") auto
  from Cons.prems(1) st have d: "\<not> d" and r: "reward = r" and p: "plays C e rs"
    by (auto dest: spec[of _ action])
  let ?f2 = "f\<lparr>generator := g, hx := h, state := s, done_v := d, env := e,
            act_calls := act_calls f @ [(rate f, hx f)],
            actions := actions f @ [action], rewards := rewards f @ [reward],
            log_probs := log_probs f @ [log_prob],
            rate := max (rate f * exploration_decay A) (rate_min f)\<rparr>"
  have step: "rollout C A n f = rollout C A m ?f2" unfolding n using a st d by simp
  have "plays C (env ?f2) rs" using p by simp
  from Cons.IH[OF this m] show ?case unfolding step using r by simp
qed

lemma get_policy_loss_ok:
  assumes "rs \<noteq> []" "length lps = length rs"
  shows "\<exists>l. get_policy_loss rs lps = Inr l"
  using loss_formula[OF assms] by blast

text \<open>
  Where the environment plays the rewards \<open>rs\<close> after the two resets and then signals
  done, \<^verbatim>\<open>max_episode_length\<close> exceeds their number and \<^verbatim>\<open>num_episodes\<close> is 1, the call
  returns one history entry, the sum of \<open>rs\<close>, and as many actions as rewards. In training
  mode this needs at least one reward.
\<close>

lemma terminating_environment_one_episode:
  assumes "plays C (env (initial_frame C A w)) rs"
    and "int (length rs) < max_episode_length A"
    and "num_episodes A = 1"
    and "train A \<longrightarrow> rs \<noteq> []"
    and "\<not> early_stopping A"
    and "print_res A \<longrightarrow> print_freq A \<noteq> 0"
  shows "\<exists>f as. reinforce C A w = Return f \<and> reward_history f = [sum_list rs]
           \<and> action_history f = [as] \<and> length as = length rs"
proof -
  let ?i = "initial_frame C A w"
  let ?f0 = "?i\<lparr>rewards := [], actions := [], log_probs := [], hx := None\<rparr>"
  let ?t = "trajectory C A ?i"
  have n: "length rs < nat (max_episode_length A)" using assms(2) by simp
  have "plays C (env ?f0) rs" using assms(1) by simp
  from rollout_plays[OF this n, of A]
  have t: "done_v ?t" "rewards ?t = rs" "length (actions ?t) = length rs"
    "length (log_probs ?t) = length rs"
    by (simp_all add: trajectory_def)
  have tk: "reward_history ?t = []" "action_history ?t = []" "total_rewards ?t = []"
    "total_actions ?t = []"
    by (simp_all add: trajectory_keeps initial_frame_fields)
  obtain f1 where f1: "train_step C A ?t = Next f1"
  proof (cases "train A")
    case False
    then have "train_step C A ?t = Next ?t" by (rule train_step_eval)
    then show thesis by (rule that)
  next
    case True
    with assms(4) have "rs \<noteq> []" by simp
    from get_policy_loss_ok[OF this, of "map (item C) (log_probs ?t)"] t
    obtain l where "get_policy_loss (rewards ?t) (map (item C) (log_probs ?t)) = Inr l" by auto
    then have "\<exists>f1. train_step C A ?t = Next f1"
      using True by (simp add: train_step_def split: prod.splits)
    then show thesis using that by blast
  qed
  then have f1e: "f1 = final (train_step C A ?t)" by simp
  let ?r = "record_episode C f1"
  have d1: "done_v f1" using t(1) by (simp add: f1e train_step_keeps)
  have rep: "report A ?r = Next ?r"
    using assms(6) by (auto simp: report_def)
  have val: "validate (validation_run C) A ?r = Next ?r"
    using assms(5) by (simp add: validate_def)
  have ep: "episode C (validation_run C) A ?i = Next ?r"
    by (simp add: episode_def f1 rep val)
  have run: "reinforce C A w = Return ?r"
    using assms(3) ep by (simp add: reinforce_def reinforce_with_def)
  from record_episode_cases[of f1 C] d1 obtain s e where
    "?r = f1\<lparr>reward_history := reward_history f1 @ [sum_list (total_rewards f1 @ rewards f1)],
         action_history := action_history f1 @ [total_actions f1 @ actions f1],
         state := s, env := e, total_rewards := [], total_actions := [],
         completed_episodes_counter := completed_episodes_counter f1 + 1\<rparr>"
    by auto
  then have "reward_history ?r = [sum_list rs]" "action_history ?r = [actions ?t]"
    by (simp_all add: f1e train_step_keeps tk t)
  with run t(3) show ?thesis by blast
qed

lemma terminating_environment_example:
  "plays (fake [1, 2, 3] 0)
     (env (initial_frame (fake [1, 2, 3] 0) (default_args\<lparr>num_episodes := 1\<rparr>) world0)) [1, 2, 3]
   \<and> (\<exists>f as. reinforce (fake [1, 2, 3] 0) (default_args\<lparr>num_episodes := 1\<rparr>) world0 = Return f
         \<and> reward_history f = [6] \<and> action_history f = [as] \<and> length as = 3)"
proof -
  have p: "plays (fake [1, 2, 3] 0)
     (env (initial_frame (fake [1, 2, 3] 0) (default_args\<lparr>num_episodes := 1\<rparr>) world0)) [1, 2, 3]"
    by (simp add: initial_frame_def fake_def world0_def)
  let ?A = "default_args\<lparr>num_episodes := 1\<rparr>"
  have h: "int (length [1, 2, 3 :: real]) < max_episode_length ?A" "num_episodes ?A = 1"
    "train ?A \<longrightarrow> [1, 2, 3 :: real] \<noteq> []" "\<not> early_stopping ?A"
    "print_res ?A \<longrightarrow> print_freq ?A \<noteq> 0"
    by (simp_all add: default_args_def)
  from terminating_environment_one_episode[OF p h]
  obtain f as where "reinforce (fake [1, 2, 3] 0) ?A world0 = Return f"
    "reward_history f = [sum_list [1, 2, 3]]" "action_history f = [as]"
    "length as = length [1, 2, 3 :: real]"
    by blast
  then have "reinforce (fake [1, 2, 3] 0) ?A world0 = Return f
         \<and> reward_history f = [6] \<and> action_history f = [as] \<and> length as = 3"
    by simp
  with p show ?thesis by blast
qed

text \<open>
  Claim C3 fails on the code. Line 99 tests \<^verbatim>\<open>train\<close> only: in training mode an outer
  iteration whose trajectory is empty calls \<^verbatim>\<open>get_policy_loss\<close> with empty lists, where
  \<^verbatim>\<open>torch.stack\<close> raises RuntimeError. The iteration, and with it the call of
  \<^verbatim>\<open>reinforce\<close>, ends with that exception; no optimization has taken place.
\<close>

theorem empty_trajectory_raises:
  assumes "train A" and "log_probs (trajectory C A f) = []"
  shows "episode C nested A f = Raised RuntimeError (trajectory C A f)
         \<and> optimize_calls (trajectory C A f) = optimize_calls f"
  using assms
  by (simp add: episode_def train_step_def get_policy_loss_def trajectory_keeps)

text \<open>
  An environment whose first step signals done, under the default arguments: the first
  outer iteration raises, and so does \<^verbatim>\<open>reinforce\<close>.
\<close>

theorem empty_trajectory_raises_witness:
  "train default_args
   \<and> log_probs (trajectory (fake [] 0) default_args
        (initial_frame (fake [] 0) default_args world0)) = []
   \<and> raised (episode (fake [] 0) (validation_run (fake [] 0)) default_args
        (initial_frame (fake [] 0) default_args world0)) = Some RuntimeError
   \<and> raised (reinforce (fake [] 0) default_args world0) = Some RuntimeError
   \<and> optimize_calls (final (reinforce (fake [] 0) default_args world0)) = 0"
proof -
  let ?i = "initial_frame (fake [] 0) default_args world0"
  have t: "train default_args" by (simp add: default_args_def)
  have l: "log_probs (trajectory (fake [] 0) default_args ?i) = []"
    by (simp add: run_simps)
  from empty_trajectory_raises[OF t l, of "validation_run (fake [] 0)"]
  have e: "episode (fake [] 0) (validation_run (fake [] 0)) default_args ?i
             = Raised RuntimeError (trajectory (fake [] 0) default_args ?i)"
    and o: "optimize_calls (trajectory (fake [] 0) default_args ?i) = optimize_calls ?i"
    by simp_all
  have n: "nat (num_episodes default_args) = 1000" by (simp add: default_args_def)
  have r: "reinforce (fake [] 0) default_args world0
             = Raised RuntimeError (trajectory (fake [] 0) default_args ?i)"
    unfolding reinforce_def reinforce_with_def n by (simp add: episodes_numeral e)
  show ?thesis using t l e r o by (simp add: initial_frame_fields)
qed

text \<open>
  Claim C2 fails on the code for \<open>k = 1\<close>, by the defect of claim C3: the environment
  terminates at its first step, \<^verbatim>\<open>num_episodes\<close> is 1 and \<^verbatim>\<open>max_episode_length\<close> has its
  default, and the call raises RuntimeError instead of returning the one entry 0.
\<close>

theorem first_step_termination_raises:
  "plays (fake [] 0)
     (env (initial_frame (fake [] 0) (default_args\<lparr>num_episodes := 1\<rparr>) world0)) []
   \<and> 1 \<le> max_episode_length (default_args\<lparr>num_episodes := 1\<rparr>)
   \<and> raised (reinforce (fake [] 0) (default_args\<lparr>num_episodes := 1\<rparr>) world0)
       = Some RuntimeError
   \<and> reward_history (final (reinforce (fake [] 0) (default_args\<lparr>num_episodes := 1\<rparr>) world0))
       = []"
  by (simp add: run_simps)

section \<open>Early stopping\<close>




















end
